theory Spec2Isabelle
  imports Complex_Main "HOL-Library.Multiset"
begin

section \<open>Data model of the force-directed layout\<close>

text \<open>
  The layout engine is the Go function \<^verbatim>\<open>ComputeForceLayout\<close> with its types
  \<^verbatim>\<open>ForceNode\<close>, \<^verbatim>\<open>ForceEdge\<close>, \<^verbatim>\<open>ForceLayout\<close> and \<^verbatim>\<open>ForceLayoutOptions\<close>.

  Numbers. Go's \<^verbatim>\<open>float64\<close> is modelled by \<^typ>\<open>real\<close>: every operation is the exact
  one, there is no rounding, no infinity and no NaN. All divisions of the code have a
  divisor the code itself keeps away from zero (\<^verbatim>\<open>maxPR\<close> is set to 1 when it is 0,
  \<^verbatim>\<open>dist\<close> is raised to 1, \<^verbatim>\<open>disp\<close> is larger than a positive temperature), so the
  convention \<open>x / 0 = 0\<close> of HOL is never used. Go's \<^verbatim>\<open>int\<close> field \<^verbatim>\<open>Iterations\<close> is only
  compared and counted up to, so it is an \<^typ>\<open>int\<close>.

  Types of the packages \<^verbatim>\<open>model\<close> and \<^verbatim>\<open>analysis\<close>. Only the fields the layout reads
  are kept. \<^verbatim>\<open>model.Status\<close> and \<^verbatim>\<open>model.DependencyType\<close> are strings. An issue's
  \<^verbatim>\<open>Dependencies\<close> is a slice of pointers, which the code tests against \<^verbatim>\<open>nil\<close>: a list
  of options. \<^verbatim>\<open>Stats\<close> is a pointer on which \<^verbatim>\<open>PageRank()\<close> and \<^verbatim>\<open>Betweenness()\<close> are
  called without a test (the exporter refuses a \<^verbatim>\<open>nil\<close> one before it calls the layout);
  the two methods are not part of the layout's source and return Go maps from issue
  identifiers to scores, and the record \<open>GraphStats\<close> holds these two maps. The betweenness map is only looked up, so it is a partial
  function. The PageRank map is looked up and also ranged over, and Go leaves the order of
  a range over a map open: it is an association list whose order is the order in which
  the range statement visits the entries (a Go map has each key once).
\<close>

record Dependency =
  DependsOnID :: string
  DepType :: string

record Issue =
  IssueID :: string
  IssueTitle :: string
  IssueStatus :: string
  IssuePriority :: int
  Dependencies :: "Dependency option list"

record GraphStats =
  PageRankMap :: "(string \<times> real) list"
  BetweennessMap :: "string \<Rightarrow> real option"

record ForceNode =
  ID :: string
  Title :: string
  Status :: string
  Priority :: int
  PageRank :: real
  X :: real
  Y :: real
  Vx :: real
  Vy :: real
  Radius :: real

record ForceEdge =
  From :: string
  To :: string
  Type :: string

record ForceLayout =
  Nodes :: "ForceNode list"
  Edges :: "ForceEdge list"
  Width :: real
  Height :: real
  CenterX :: real
  CenterY :: real
  MinX :: real
  MaxX :: real
  MinY :: real
  MaxY :: real
  LayoutTitle :: string
  LayoutDataHash :: string
  TopNode :: string
  TopNodeRank :: real

record ForceLayoutOptions =
  Issues :: "Issue list"
  Stats :: GraphStats
  OptTitle :: string
  OptDataHash :: string
  Iterations :: int
  RepelForce :: real
  AttractForce :: real
  Damping :: real
  MinNodeSize :: real
  MaxNodeSize :: real

text \<open>\<^verbatim>\<open>math.MaxFloat64\<close>, the largest finite \<^verbatim>\<open>float64\<close>: \<open>(2 - 2\<^sup>-\<^sup>5\<^sup>2) * 2\<^sup>1\<^sup>0\<^sup>2\<^sup>3\<close>.\<close>

definition MaxFloat64 :: real where
  "MaxFloat64 = (2 ^ 53 - 1) * 2 ^ 971"

section \<open>ComputeForceLayout, phase by phase\<close>

subsection \<open>Defaults\<close>

text \<open>
  The six statements \<^verbatim>\<open>if opts.F == 0 { opts.F = d }\<close>, in the order of the source. Each
  one tests and assigns its own field only, so each is the assignment of
  \<open>if F = 0 then d else F\<close> to \<open>F\<close>.
\<close>

definition set_defaults :: "ForceLayoutOptions \<Rightarrow> ForceLayoutOptions" where
  "set_defaults opts =
    opts\<lparr>Iterations := (if Iterations opts = 0 then 300 else Iterations opts),
         RepelForce := (if RepelForce opts = 0 then 8000 else RepelForce opts),
         AttractForce := (if AttractForce opts = 0 then 0.015 else AttractForce opts),
         Damping := (if Damping opts = 0 then 0.85 else Damping opts),
         MinNodeSize := (if MinNodeSize opts = 0 then 24 else MinNodeSize opts),
         MaxNodeSize := (if MaxNodeSize opts = 0 then 60 else MaxNodeSize opts)\<rparr>"

subsection \<open>Map lookups and the maximal PageRank\<close>

text \<open>A Go map read \<^verbatim>\<open>m[k]\<close> of a \<^verbatim>\<open>map[string]float64\<close> gives 0 for a missing key.\<close>

definition lookup_pr :: "(string \<times> real) list \<Rightarrow> string \<Rightarrow> real" where
  "lookup_pr m k = (case map_of m k of None \<Rightarrow> 0 | Some v \<Rightarrow> v)"

definition lookup_bt :: "(string \<Rightarrow> real option) \<Rightarrow> string \<Rightarrow> real" where
  "lookup_bt m k = (case m k of None \<Rightarrow> 0 | Some v \<Rightarrow> v)"

text \<open>\<^verbatim>\<open>for _, pr := range pageRank { if pr > maxPR { maxPR = pr } }\<close>\<close>

fun maxPR_loop :: "real \<Rightarrow> (string \<times> real) list \<Rightarrow> real" where
  "maxPR_loop maxPR [] = maxPR"
| "maxPR_loop maxPR ((k, pr) # rest) = maxPR_loop (if pr > maxPR then pr else maxPR) rest"

definition find_maxPR :: "(string \<times> real) list \<Rightarrow> real" where
  "find_maxPR pageRank =
    (let maxPR = maxPR_loop 0 pageRank in if maxPR = 0 then 1 else maxPR)"

definition canvasSize_of :: "nat \<Rightarrow> real" where
  "canvasSize_of nodeCount = max 800 (sqrt (real nodeCount) * 200)"

subsection \<open>Creating the nodes\<close>

text \<open>
  The generator \<^verbatim>\<open>rand.New(rand.NewSource(42))\<close> belongs to Go's library. Its seed is a
  constant of the code, so the sequence of values its \<^verbatim>\<open>Float64()\<close> returns is one fixed
  sequence; it is the parameter \<open>rnd\<close>, and the generator's state is the number of values
  drawn so far.

  The loop state: the slice \<^verbatim>\<open>nodes\<close>, the map \<^verbatim>\<open>nodeMap\<close>, the running top node and the
  generator. \<^verbatim>\<open>nodeMap\<close> holds pointers \<^verbatim>\<open>&nodes[k]\<close>; the slice was made with capacity
  \<^verbatim>\<open>nodeCount\<close> and never grows beyond it, so a pointer is the index \<open>k\<close> into the one
  backing array.
\<close>

record node_loop =
  nl_nodes :: "ForceNode list"
  nl_nodeMap :: "string \<Rightarrow> nat option"
  nl_topNode :: string
  nl_topNodeRank :: real
  nl_rng :: nat

text \<open>The struct literal of the loop body; \<open>k\<close> is the state of the generator before it.\<close>

definition make_node ::
  "(nat \<Rightarrow> real) \<Rightarrow> ForceLayoutOptions \<Rightarrow> (string \<times> real) list \<Rightarrow> (string \<Rightarrow> real option) \<Rightarrow>
   real \<Rightarrow> real \<Rightarrow> nat \<Rightarrow> Issue \<Rightarrow> ForceNode" where
  "make_node rnd opts pageRank betweenness maxPR canvasSize k iss =
    (let pr = lookup_pr pageRank (IssueID iss);
         importance = pr / maxPR * 0.7 + lookup_bt betweenness (IssueID iss) * 0.3;
         radius = MinNodeSize opts + importance * (MaxNodeSize opts - MinNodeSize opts)
     in \<lparr>ID = IssueID iss, Title = IssueTitle iss, Status = IssueStatus iss,
         Priority = IssuePriority iss, PageRank = pr,
         X = canvasSize / 2 + (rnd k - 0.5) * canvasSize * 0.8,
         Y = canvasSize / 2 + (rnd (k + 1) - 0.5) * canvasSize * 0.8,
         Vx = 0, Vy = 0, Radius = radius\<rparr>)"

definition node_step ::
  "(nat \<Rightarrow> real) \<Rightarrow> ForceLayoutOptions \<Rightarrow> (string \<times> real) list \<Rightarrow> (string \<Rightarrow> real option) \<Rightarrow>
   real \<Rightarrow> real \<Rightarrow> node_loop \<Rightarrow> Issue \<Rightarrow> node_loop" where
  "node_step rnd opts pageRank betweenness maxPR canvasSize s iss =
    (let pr = lookup_pr pageRank (IssueID iss);
         top = (if pr > nl_topNodeRank s then (pr, IssueID iss)
                else (nl_topNodeRank s, nl_topNode s));
         node = make_node rnd opts pageRank betweenness maxPR canvasSize (nl_rng s) iss;
         nodes = nl_nodes s @ [node]
     in \<lparr>nl_nodes = nodes,
         nl_nodeMap = (nl_nodeMap s)(IssueID iss \<mapsto> length nodes - 1),
         nl_topNode = snd top, nl_topNodeRank = fst top,
         nl_rng = nl_rng s + 2\<rparr>)"

definition create_nodes ::
  "(nat \<Rightarrow> real) \<Rightarrow> ForceLayoutOptions \<Rightarrow> (string \<times> real) list \<Rightarrow> (string \<Rightarrow> real option) \<Rightarrow>
   real \<Rightarrow> real \<Rightarrow> node_loop" where
  "create_nodes rnd opts pageRank betweenness maxPR canvasSize =
    foldl (node_step rnd opts pageRank betweenness maxPR canvasSize)
      \<lparr>nl_nodes = [], nl_nodeMap = Map.empty, nl_topNode = [], nl_topNodeRank = 0, nl_rng = 0\<rparr>
      (Issues opts)"

subsection \<open>Building the edges\<close>

text \<open>\<^verbatim>\<open>issueIDs[iss.ID] = true\<close> for every issue; a missing key reads \<^verbatim>\<open>false\<close>.\<close>

definition issueIDs :: "Issue list \<Rightarrow> string \<Rightarrow> bool" where
  "issueIDs issues k = (k \<in> set (map IssueID issues))"

text \<open>
  The inner loop over one issue's dependencies: a \<^verbatim>\<open>nil\<close> dependency and a dependency
  on an identifier outside the snapshot are skipped, every other one appends an edge.
\<close>

fun dep_edges :: "(string \<Rightarrow> bool) \<Rightarrow> string \<Rightarrow> Dependency option list \<Rightarrow> ForceEdge list" where
  "dep_edges ids owner [] = []"
| "dep_edges ids owner (None # deps) = dep_edges ids owner deps"
| "dep_edges ids owner (Some dep # deps) =
    (if \<not> ids (DependsOnID dep) then dep_edges ids owner deps
     else \<lparr>From = owner, To = DependsOnID dep, Type = DepType dep\<rparr> # dep_edges ids owner deps)"

fun edges_loop :: "(string \<Rightarrow> bool) \<Rightarrow> Issue list \<Rightarrow> ForceEdge list" where
  "edges_loop ids [] = []"
| "edges_loop ids (iss # rest) =
    dep_edges ids (IssueID iss) (Dependencies iss) @ edges_loop ids rest"

definition build_edges :: "Issue list \<Rightarrow> ForceEdge list" where
  "build_edges issues = edges_loop (issueIDs issues) issues"

text \<open>
  The map \<^verbatim>\<open>adjacency\<close> the source builds next is never read again; it has no part in
  the result and is left out.
\<close>

subsection \<open>One round of the simulation\<close>

definition reset_velocity :: "ForceNode list \<Rightarrow> ForceNode list" where
  "reset_velocity nodes = map (\<lambda>n. n\<lparr>Vx := 0, Vy := 0\<rparr>) nodes"

text \<open>The body of the all-pairs loop for \<open>i \<noteq> j\<close>: node \<open>i\<close> is pushed away from node \<open>j\<close>.\<close>

definition repel_pair :: "real \<Rightarrow> ForceNode \<Rightarrow> ForceNode \<Rightarrow> ForceNode" where
  "repel_pair repelForce ni nj =
    (let dx = X ni - X nj;
         dy = Y ni - Y nj;
         dist0 = sqrt (dx * dx + dy * dy);
         dist = (if dist0 < 1 then 1 else dist0);
         force = repelForce / (dist * dist)
     in ni\<lparr>Vx := Vx ni + (dx / dist) * force, Vy := Vy ni + (dy / dist) * force\<rparr>)"

definition repel_inner :: "real \<Rightarrow> nat \<Rightarrow> ForceNode list \<Rightarrow> ForceNode list" where
  "repel_inner repelForce i nodes =
    fold (\<lambda>j ns. if i = j then ns else ns[i := repel_pair repelForce (ns ! i) (ns ! j)])
      [0..<length nodes] nodes"

definition repel_all :: "real \<Rightarrow> ForceNode list \<Rightarrow> ForceNode list" where
  "repel_all repelForce nodes =
    fold (\<lambda>i ns. repel_inner repelForce i ns) [0..<length nodes] nodes"

text \<open>
  The body of the loop over the edges. \<^verbatim>\<open>n1\<close> and \<^verbatim>\<open>n2\<close> are pointers into the slice and
  may be the same pointer, so the two pairs of updates are applied one after the other
  on the array: the second pair reads what the first has written.
\<close>

definition attract_edge ::
  "real \<Rightarrow> (string \<Rightarrow> nat option) \<Rightarrow> ForceNode list \<Rightarrow> ForceEdge \<Rightarrow> ForceNode list" where
  "attract_edge attractForce nodeMap nodes e =
    (case nodeMap (From e) of
       None \<Rightarrow> nodes
     | Some i1 \<Rightarrow>
        (case nodeMap (To e) of
           None \<Rightarrow> nodes
         | Some i2 \<Rightarrow>
            (let dx = X (nodes ! i2) - X (nodes ! i1);
                 dy = Y (nodes ! i2) - Y (nodes ! i1);
                 dist0 = sqrt (dx * dx + dy * dy);
                 dist = (if dist0 < 1 then 1 else dist0);
                 force = dist * attractForce;
                 ns1 = nodes[i1 := (nodes ! i1)\<lparr>Vx := Vx (nodes ! i1) + (dx / dist) * force,
                                               Vy := Vy (nodes ! i1) + (dy / dist) * force\<rparr>];
                 ns2 = ns1[i2 := (ns1 ! i2)\<lparr>Vx := Vx (ns1 ! i2) - (dx / dist) * force,
                                           Vy := Vy (ns1 ! i2) - (dy / dist) * force\<rparr>]
             in ns2)))"

definition attract_all ::
  "real \<Rightarrow> (string \<Rightarrow> nat option) \<Rightarrow> ForceEdge list \<Rightarrow> ForceNode list \<Rightarrow> ForceNode list" where
  "attract_all attractForce nodeMap edges nodes =
    foldl (attract_edge attractForce nodeMap) nodes edges"

definition apply_force :: "real \<Rightarrow> real \<Rightarrow> ForceNode \<Rightarrow> ForceNode" where
  "apply_force damping temperature n =
    (let disp = sqrt (Vx n * Vx n + Vy n * Vy n);
         n1 = (if disp > temperature
               then n\<lparr>Vx := (Vx n / disp) * temperature, Vy := (Vy n / disp) * temperature\<rparr>
               else n);
         n2 = n1\<lparr>Vx := Vx n1 * damping, Vy := Vy n1 * damping\<rparr>
     in n2\<lparr>X := X n2 + Vx n2, Y := Y n2 + Vy n2\<rparr>)"

definition sim_round ::
  "ForceLayoutOptions \<Rightarrow> (string \<Rightarrow> nat option) \<Rightarrow> ForceEdge list \<Rightarrow> real \<Rightarrow>
   ForceNode list \<Rightarrow> ForceNode list" where
  "sim_round opts nodeMap edges temperature nodes =
    map (apply_force (Damping opts) temperature)
      (attract_all (AttractForce opts) nodeMap edges
        (repel_all (RepelForce opts) (reset_velocity nodes)))"

text \<open>
  \<^verbatim>\<open>for iter := 0; iter < opts.Iterations; iter++ { ...; temperature *= 0.97 }\<close>.
  The loop ends because \<open>Iterations - iter\<close> decreases.
\<close>

function sim_loop ::
  "ForceLayoutOptions \<Rightarrow> (string \<Rightarrow> nat option) \<Rightarrow> ForceEdge list \<Rightarrow> int \<Rightarrow> real \<Rightarrow>
   ForceNode list \<Rightarrow> ForceNode list" where
  "sim_loop opts nodeMap edges iter temperature nodes =
    (if iter < Iterations opts
     then sim_loop opts nodeMap edges (iter + 1) (temperature * 0.97)
            (sim_round opts nodeMap edges temperature nodes)
     else nodes)"
  by pat_completeness auto
termination
  by (relation "measure (\<lambda>(opts, nodeMap, edges, iter, temperature, nodes).
        nat (Iterations opts - iter))") auto

declare sim_loop.simps [simp del]

subsection \<open>Bounds, normalisation, sorting\<close>

definition bounds_step :: "real \<times> real \<times> real \<times> real \<Rightarrow> ForceNode \<Rightarrow> real \<times> real \<times> real \<times> real" where
  "bounds_step b n =
    (case b of (minX, maxX, minY, maxY) \<Rightarrow>
      (if X n - Radius n < minX then X n - Radius n else minX,
       if X n + Radius n > maxX then X n + Radius n else maxX,
       if Y n - Radius n < minY then Y n - Radius n else minY,
       if Y n + Radius n > maxY then Y n + Radius n else maxY))"

definition calc_bounds :: "ForceNode list \<Rightarrow> real \<times> real \<times> real \<times> real" where
  "calc_bounds nodes =
    foldl bounds_step (MaxFloat64, - MaxFloat64, MaxFloat64, - MaxFloat64) nodes"

text \<open>
  \<^verbatim>\<open>sort.Slice(nodes, func(i, j int) bool { return nodes[i].PageRank < nodes[j].PageRank })\<close>
  is Go's library sort. It promises the order of the keys and nothing about nodes of equal
  PageRank (for up to twelve elements it is an insertion sort, which keeps them in place).
  It is modelled by the insertion sort \<^const>\<open>sort_key\<close>; no theorem below depends on
  the order among nodes of equal PageRank.
\<close>

definition sort_Slice :: "ForceNode list \<Rightarrow> ForceNode list" where
  "sort_Slice nodes = sort_key PageRank nodes"

subsection \<open>The whole function\<close>

text \<open>
  Everything after the simulation: the bounding box with its padding, the translation
  of the nodes with the header space, the sort, and the returned record.
\<close>

definition finish_layout ::
  "ForceLayoutOptions \<Rightarrow> node_loop \<Rightarrow> ForceEdge list \<Rightarrow> ForceNode list \<Rightarrow> ForceLayout" where
  "finish_layout opts st edges nodes1 =
    (let b = calc_bounds nodes1;
         padding = 100;
         minX = fst b - padding;
         maxX = fst (snd b) + padding;
         minY = fst (snd (snd b)) - padding;
         maxY = snd (snd (snd b)) + padding;
         headerHeight = 100;
         width = maxX - minX;
         height = maxY - minY + headerHeight;
         nodes2 = map (\<lambda>n. n\<lparr>X := X n - minX, Y := Y n - minY + headerHeight\<rparr>) nodes1;
         nodes3 = sort_Slice nodes2
     in \<lparr>Nodes = nodes3, Edges = edges, Width = width, Height = height,
         CenterX = width / 2, CenterY = height / 2,
         MinX = 0, MaxX = width, MinY = 0, MaxY = height,
         LayoutTitle = OptTitle opts, LayoutDataHash = OptDataHash opts,
         TopNode = nl_topNode st, TopNodeRank = nl_topNodeRank st\<rparr>)"

definition ComputeForceLayout :: "(nat \<Rightarrow> real) \<Rightarrow> ForceLayoutOptions \<Rightarrow> ForceLayout" where
  "ComputeForceLayout rnd opts0 =
    (let opts = set_defaults opts0;
         pageRank = PageRankMap (Stats opts);
         betweenness = BetweennessMap (Stats opts);
         maxPR = find_maxPR pageRank;
         nodeCount = length (Issues opts);
         canvasSize = canvasSize_of nodeCount;
         st = create_nodes rnd opts pageRank betweenness maxPR canvasSize;
         edges = build_edges (Issues opts);
         temperature = canvasSize / 2;
         nodes1 = sim_loop opts (nl_nodeMap st) edges 0 temperature (nl_nodes st)
     in finish_layout opts st edges nodes1)"

subsection \<open>Auxiliary notions for the proofs\<close>

text \<open>
  The fields of a node that nothing writes after the node has been created: the
  simulation writes \<open>Vx\<close>, \<open>Vy\<close>, \<open>X\<close>, \<open>Y\<close>, the normalisation \<open>X\<close> and \<open>Y\<close>.
\<close>

definition node_static :: "ForceNode \<Rightarrow> string \<times> string \<times> string \<times> int \<times> real \<times> real" where
  "node_static n = (ID n, Title n, Status n, Priority n, PageRank n, Radius n)"

subsection \<open>The node radius in the words of the specification\<close>



subsection \<open>The pull of one edge\<close>

text \<open>
  What one pass of the edge loop's body adds to the velocity of the owner's node and
  takes from the velocity of the target's node, for an owner at \<open>(x1, y1)\<close> and a target
  at \<open>(x2, y2)\<close>: the terms \<^verbatim>\<open>(dx / dist) * force\<close> and \<^verbatim>\<open>(dy / dist) * force\<close>.
\<close>

definition edge_pull :: "real \<Rightarrow> real \<Rightarrow> real \<Rightarrow> real \<Rightarrow> real \<Rightarrow> real \<times> real" where
  "edge_pull attractForce x1 y1 x2 y2 =
    (let dx = x2 - x1;
         dy = y2 - y1;
         dist0 = sqrt (dx * dx + dy * dy);
         dist = (if dist0 < 1 then 1 else dist0);
         force = dist * attractForce
     in ((dx / dist) * force, (dy / dist) * force))"

subsection \<open>A snapshot without its ineffective dependencies\<close>

text \<open>
  The snapshot with every \<^verbatim>\<open>nil\<close> dependency, every dependency of an issue on itself
  and every dependency on an identifier outside the snapshot removed. It is not part of
  the code; the layout of a snapshot is compared with the layout of this one.
\<close>

definition keep_dep :: "(string \<Rightarrow> bool) \<Rightarrow> string \<Rightarrow> Dependency option \<Rightarrow> bool" where
  "keep_dep ids owner d =
    (case d of None \<Rightarrow> False
     | Some dep \<Rightarrow> DependsOnID dep \<noteq> owner \<and> ids (DependsOnID dep))"

definition prune_deps :: "Issue list \<Rightarrow> Issue list" where
  "prune_deps issues =
    map (\<lambda>iss. iss\<lparr>Dependencies :=
           filter (keep_dep (issueIDs issues) (IssueID iss)) (Dependencies iss)\<rparr>) issues"

subsection \<open>Small snapshots for instantiating the theorems\<close>

definition ex_issue :: "string \<Rightarrow> Dependency option list \<Rightarrow> Issue" where
  "ex_issue k deps =
    \<lparr>IssueID = k, IssueTitle = k, IssueStatus = ''open'', IssuePriority = 1,
     Dependencies = deps\<rparr>"

definition ex_dep :: "string \<Rightarrow> Dependency option" where
  "ex_dep k = Some \<lparr>DependsOnID = k, DepType = ''blocks''\<rparr>"

definition ex_node :: "string \<Rightarrow> real \<Rightarrow> real \<Rightarrow> ForceNode" where
  "ex_node k x y =
    \<lparr>ID = k, Title = k, Status = ''open'', Priority = 1, PageRank = 0,
     X = x, Y = y, Vx = 0, Vy = 0, Radius = 24\<rparr>"

definition ex_opts :: "Issue list \<Rightarrow> (string \<times> real) list \<Rightarrow> int \<Rightarrow> ForceLayoutOptions" where
  "ex_opts issues pageRank n =
    \<lparr>Issues = issues, Stats = \<lparr>PageRankMap = pageRank, BetweennessMap = Map.empty\<rparr>,
     OptTitle = ''t'', OptDataHash = ''h'', Iterations = n, RepelForce = 0,
     AttractForce = 0, Damping = 0, MinNodeSize = 0, MaxNodeSize = 0\<rparr>"

section \<open>Properties\<close>

subsection \<open>Defaults\<close>

lemma set_defaults_idem: "set_defaults (set_defaults opts) = set_defaults opts"
  by (simp add: set_defaults_def)

lemma set_defaults_passthrough [simp]:
  "Issues (set_defaults opts) = Issues opts"
  "Stats (set_defaults opts) = Stats opts"
  "OptTitle (set_defaults opts) = OptTitle opts"
  "OptDataHash (set_defaults opts) = OptDataHash opts"
  by (simp_all add: set_defaults_def)

lemma set_defaults_fields:
  "Iterations (set_defaults opts) = (if Iterations opts = 0 then 300 else Iterations opts)"
  "RepelForce (set_defaults opts) = (if RepelForce opts = 0 then 8000 else RepelForce opts)"
  "AttractForce (set_defaults opts) = (if AttractForce opts = 0 then 0.015 else AttractForce opts)"
  "Damping (set_defaults opts) = (if Damping opts = 0 then 0.85 else Damping opts)"
  "MinNodeSize (set_defaults opts) = (if MinNodeSize opts = 0 then 24 else MinNodeSize opts)"
  "MaxNodeSize (set_defaults opts) = (if MaxNodeSize opts = 0 then 60 else MaxNodeSize opts)"
  by (simp_all add: set_defaults_def)

lemma ComputeForceLayout_defaults:
  "ComputeForceLayout rnd (set_defaults opts) = ComputeForceLayout rnd opts"
  by (simp only: ComputeForceLayout_def set_defaults_idem)

text \<open>
  Claim C5. Each of \<open>Iterations\<close>, \<open>RepelForce\<close>, \<open>AttractForce\<close>, \<open>Damping\<close>,
  \<open>MinNodeSize\<close>, \<open>MaxNodeSize\<close> that is zero is replaced by its default (300, 8000,
  0.015, 0.85, 24, 60), and a value that is not zero is used as it is, each field on its
  own. The layout computed from the options with the defaults written in is the layout
  computed from the options as given.
\<close>

theorem set_defaults_each_field:
  "Iterations (set_defaults opts) = (if Iterations opts = 0 then 300 else Iterations opts) \<and>
   RepelForce (set_defaults opts) = (if RepelForce opts = 0 then 8000 else RepelForce opts) \<and>
   AttractForce (set_defaults opts) = (if AttractForce opts = 0 then 0.015 else AttractForce opts) \<and>
   Damping (set_defaults opts) = (if Damping opts = 0 then 0.85 else Damping opts) \<and>
   MinNodeSize (set_defaults opts) = (if MinNodeSize opts = 0 then 24 else MinNodeSize opts) \<and>
   MaxNodeSize (set_defaults opts) = (if MaxNodeSize opts = 0 then 60 else MaxNodeSize opts) \<and>
   ComputeForceLayout rnd (set_defaults opts) = ComputeForceLayout rnd opts"
  using set_defaults_fields [of opts] ComputeForceLayout_defaults [of rnd opts] by blast

text \<open>
  The options of the "roomy" preset of the exporter (node sizes 30 and 70, repulsion
  12000, everything else unset): the three given values stay, the other three fields get
  their defaults.
\<close>

theorem set_defaults_each_field_witness:
  "Iterations (set_defaults
      \<lparr>Issues = [], Stats = \<lparr>PageRankMap = [], BetweennessMap = Map.empty\<rparr>,
       OptTitle = ''t'', OptDataHash = ''h'', Iterations = 0, RepelForce = 12000,
       AttractForce = 0, Damping = 0, MinNodeSize = 30, MaxNodeSize = 70\<rparr>) = 300 \<and>
   RepelForce (set_defaults
      \<lparr>Issues = [], Stats = \<lparr>PageRankMap = [], BetweennessMap = Map.empty\<rparr>,
       OptTitle = ''t'', OptDataHash = ''h'', Iterations = 0, RepelForce = 12000,
       AttractForce = 0, Damping = 0, MinNodeSize = 30, MaxNodeSize = 70\<rparr>) = 12000 \<and>
   AttractForce (set_defaults
      \<lparr>Issues = [], Stats = \<lparr>PageRankMap = [], BetweennessMap = Map.empty\<rparr>,
       OptTitle = ''t'', OptDataHash = ''h'', Iterations = 0, RepelForce = 12000,
       AttractForce = 0, Damping = 0, MinNodeSize = 30, MaxNodeSize = 70\<rparr>) = 0.015 \<and>
   Damping (set_defaults
      \<lparr>Issues = [], Stats = \<lparr>PageRankMap = [], BetweennessMap = Map.empty\<rparr>,
       OptTitle = ''t'', OptDataHash = ''h'', Iterations = 0, RepelForce = 12000,
       AttractForce = 0, Damping = 0, MinNodeSize = 30, MaxNodeSize = 70\<rparr>) = 0.85 \<and>
   MinNodeSize (set_defaults
      \<lparr>Issues = [], Stats = \<lparr>PageRankMap = [], BetweennessMap = Map.empty\<rparr>,
       OptTitle = ''t'', OptDataHash = ''h'', Iterations = 0, RepelForce = 12000,
       AttractForce = 0, Damping = 0, MinNodeSize = 30, MaxNodeSize = 70\<rparr>) = 30 \<and>
   MaxNodeSize (set_defaults
      \<lparr>Issues = [], Stats = \<lparr>PageRankMap = [], BetweennessMap = Map.empty\<rparr>,
       OptTitle = ''t'', OptDataHash = ''h'', Iterations = 0, RepelForce = 12000,
       AttractForce = 0, Damping = 0, MinNodeSize = 30, MaxNodeSize = 70\<rparr>) = 70"
  using set_defaults_each_field [of
      "\<lparr>Issues = [], Stats = \<lparr>PageRankMap = [], BetweennessMap = Map.empty\<rparr>,
       OptTitle = ''t'', OptDataHash = ''h'', Iterations = 0, RepelForce = 12000,
       AttractForce = 0, Damping = 0, MinNodeSize = 30, MaxNodeSize = 70\<rparr>" "\<lambda>_. 0"]
  by simp

subsection \<open>The returned record\<close>

text \<open>
  Claim C10. In every returned layout \<open>MinX = 0\<close>, \<open>MinY = 0\<close>, \<open>MaxX = Width\<close>,
  \<open>MaxY = Height\<close>, \<open>CenterX = Width / 2\<close>, \<open>CenterY = Height / 2\<close>, and the title and the
  data hash are those of the options, unchanged.
\<close>

theorem layout_bounds_and_metadata:
  "MinX (ComputeForceLayout rnd opts) = 0 \<and>
   MinY (ComputeForceLayout rnd opts) = 0 \<and>
   MaxX (ComputeForceLayout rnd opts) = Width (ComputeForceLayout rnd opts) \<and>
   MaxY (ComputeForceLayout rnd opts) = Height (ComputeForceLayout rnd opts) \<and>
   CenterX (ComputeForceLayout rnd opts) = Width (ComputeForceLayout rnd opts) / 2 \<and>
   CenterY (ComputeForceLayout rnd opts) = Height (ComputeForceLayout rnd opts) / 2 \<and>
   LayoutTitle (ComputeForceLayout rnd opts) = OptTitle opts \<and>
   LayoutDataHash (ComputeForceLayout rnd opts) = OptDataHash opts"
  by (simp add: ComputeForceLayout_def finish_layout_def Let_def)


subsection \<open>Fields the simulation leaves alone\<close>

lemma node_static_updates [simp]:
  "node_static (n\<lparr>Vx := a\<rparr>) = node_static n"
  "node_static (n\<lparr>Vy := a\<rparr>) = node_static n"
  "node_static (n\<lparr>X := a\<rparr>) = node_static n"
  "node_static (n\<lparr>Y := a\<rparr>) = node_static n"
  by (simp_all add: node_static_def)

lemma map_static_update:
  assumes "i < length ns \<Longrightarrow> node_static n' = node_static (ns ! i)"
  shows "map node_static (ns[i := n']) = map node_static ns"
proof (cases "i < length ns")
  case True
  with assms have "node_static n' = map node_static ns ! i" by simp
  then show ?thesis by (simp add: map_update)
next
  case False
  then have "ns[i := n'] = ns" by (simp add: list_update_beyond)
  then show ?thesis by simp
qed

lemma static_reset_velocity: "map node_static (reset_velocity ns) = map node_static ns"
  by (simp add: reset_velocity_def)

lemma static_repel_pair [simp]: "node_static (repel_pair rf ni nj) = node_static ni"
  by (simp add: repel_pair_def Let_def)

lemma static_repel_fold:
  "map node_static
     (fold (\<lambda>j ns. if i = j then ns else ns[i := repel_pair rf (ns ! i) (ns ! j)]) js ns) =
   map node_static ns"
  by (induction js arbitrary: ns) (simp_all add: map_static_update)

lemma static_repel_inner: "map node_static (repel_inner rf i ns) = map node_static ns"
  by (simp add: repel_inner_def static_repel_fold)

lemma static_repel_outer:
  "map node_static (fold (\<lambda>i ns. repel_inner rf i ns) is ns) = map node_static ns"
  by (induction "is" arbitrary: ns) (simp_all add: static_repel_inner)

lemma static_repel_all: "map node_static (repel_all rf ns) = map node_static ns"
  by (simp add: repel_all_def static_repel_outer)

lemma static_attract_edge: "map node_static (attract_edge af nm ns e) = map node_static ns"
  by (simp add: attract_edge_def Let_def map_static_update split: option.splits)

lemma static_attract_all: "map node_static (attract_all af nm es ns) = map node_static ns"
  unfolding attract_all_def
  by (induction es arbitrary: ns) (simp_all add: static_attract_edge)

lemma static_apply_force [simp]: "node_static (apply_force d t n) = node_static n"
  by (simp add: apply_force_def Let_def)

lemma static_map_apply_force:
  "map node_static (map (apply_force d t) ns) = map node_static ns"
  by (simp add: comp_def)

lemma static_sim_round: "map node_static (sim_round opts nm es t ns) = map node_static ns"
  unfolding sim_round_def
  by (simp only: static_map_apply_force static_attract_all static_repel_all
      static_reset_velocity)

lemma static_sim_loop: "map node_static (sim_loop opts nm es it t ns) = map node_static ns"
proof (induction opts nm es it t ns rule: sim_loop.induct)
  case (1 opts nm es it t ns)
  show ?case
  proof (cases "it < Iterations opts")
    case True
    then show ?thesis
      using "1.IH" by (simp add: sim_loop.simps [of opts nm es it t ns] static_sim_round)
  next
    case False
    then show ?thesis by (simp add: sim_loop.simps [of opts nm es it t ns])
  qed
qed

subsection \<open>The loop that creates the nodes\<close>

lemma node_step_top:
  "nl_topNodeRank (node_step rnd opts prs bt m c s x) =
     (if lookup_pr prs (IssueID x) > nl_topNodeRank s then lookup_pr prs (IssueID x)
      else nl_topNodeRank s)"
  "nl_topNode (node_step rnd opts prs bt m c s x) =
     (if lookup_pr prs (IssueID x) > nl_topNodeRank s then IssueID x else nl_topNode s)"
  "nl_nodes (node_step rnd opts prs bt m c s x) =
     nl_nodes s @ [make_node rnd opts prs bt m c (nl_rng s) x]"
  "nl_rng (node_step rnd opts prs bt m c s x) = nl_rng s + 2"
  by (simp_all add: node_step_def Let_def)

lemma top_invariant:
  fixes prs :: "(string \<times> real) list"
  defines "rank \<equiv> \<lambda>iss. lookup_pr prs (IssueID iss)"
  assumes "s = foldl (node_step rnd opts prs bt m c)
      \<lparr>nl_nodes = [], nl_nodeMap = Map.empty, nl_topNode = [], nl_topNodeRank = 0, nl_rng = 0\<rparr> xs"
  shows "(nl_topNodeRank s = 0 \<and> nl_topNode s = [] \<and> (\<forall>j<length xs. rank (xs ! j) \<le> 0)) \<or>
     (\<exists>i<length xs. nl_topNode s = IssueID (xs ! i) \<and> nl_topNodeRank s = rank (xs ! i) \<and>
        0 < rank (xs ! i) \<and>
        (\<forall>j<length xs. rank (xs ! j) \<le> rank (xs ! i)) \<and>
        (\<forall>j<i. rank (xs ! j) < rank (xs ! i)))"
  using assms(2)
proof (induction xs arbitrary: s rule: rev_induct)
  case Nil
  then show ?case by simp
next
  case (snoc x xs)
  define s' where "s' = foldl (node_step rnd opts prs bt m c)
      \<lparr>nl_nodes = [], nl_nodeMap = Map.empty, nl_topNode = [], nl_topNodeRank = 0, nl_rng = 0\<rparr> xs"
  have s: "s = node_step rnd opts prs bt m c s' x"
    using snoc.prems by (simp add: s'_def)
  have rk: "nl_topNodeRank s = (if rank x > nl_topNodeRank s' then rank x else nl_topNodeRank s')"
    and nd: "nl_topNode s = (if rank x > nl_topNodeRank s' then IssueID x else nl_topNode s')"
    by (simp_all add: s node_step_top rank_def)
  from snoc.IH [OF s'_def] consider
    (none) "nl_topNodeRank s' = 0" "nl_topNode s' = []" "\<forall>j<length xs. rank (xs ! j) \<le> 0"
  | (some) i where "i < length xs" "nl_topNode s' = IssueID (xs ! i)"
      "nl_topNodeRank s' = rank (xs ! i)" "0 < rank (xs ! i)"
      "\<forall>j<length xs. rank (xs ! j) \<le> rank (xs ! i)" "\<forall>j<i. rank (xs ! j) < rank (xs ! i)"
    by blast
  then show ?case
  proof cases
    case none
    show ?thesis
    proof (cases "rank x > 0")
      case True
      have "\<forall>j<length (xs @ [x]). rank ((xs @ [x]) ! j) \<le> rank x"
        using none(3) True by (auto simp: nth_append less_Suc_eq) 
      moreover have "\<forall>j<length xs. rank ((xs @ [x]) ! j) < rank x"
        using none(3) True by (auto simp: nth_append intro: le_less_trans)
      ultimately have "length xs < length (xs @ [x]) \<and>
          nl_topNode s = IssueID ((xs @ [x]) ! length xs) \<and>
          nl_topNodeRank s = rank ((xs @ [x]) ! length xs) \<and>
          0 < rank ((xs @ [x]) ! length xs) \<and>
          (\<forall>j<length (xs @ [x]). rank ((xs @ [x]) ! j) \<le> rank ((xs @ [x]) ! length xs)) \<and>
          (\<forall>j<length xs. rank ((xs @ [x]) ! j) < rank ((xs @ [x]) ! length xs))"
        using True none(1) rk nd by simp
      then show ?thesis by blast
    next
      case False
      then have "\<forall>j<length (xs @ [x]). rank ((xs @ [x]) ! j) \<le> 0"
        using none(3) by (auto simp: nth_append less_Suc_eq)
      then show ?thesis using False none(1,2) rk nd by simp
    qed
  next
    case some
    show ?thesis
    proof (cases "rank x > rank (xs ! i)")
      case True
      have "\<forall>j<length (xs @ [x]). rank ((xs @ [x]) ! j) \<le> rank x"
        using some(5) True by (fastforce simp: nth_append less_Suc_eq)
      moreover have "\<forall>j<length xs. rank ((xs @ [x]) ! j) < rank x"
        using some(5) True by (fastforce simp: nth_append)
      moreover have "0 < rank x" using True some(4) by simp
      ultimately have "length xs < length (xs @ [x]) \<and>
          nl_topNode s = IssueID ((xs @ [x]) ! length xs) \<and>
          nl_topNodeRank s = rank ((xs @ [x]) ! length xs) \<and>
          0 < rank ((xs @ [x]) ! length xs) \<and>
          (\<forall>j<length (xs @ [x]). rank ((xs @ [x]) ! j) \<le> rank ((xs @ [x]) ! length xs)) \<and>
          (\<forall>j<length xs. rank ((xs @ [x]) ! j) < rank ((xs @ [x]) ! length xs))"
        using True some(3) rk nd by simp
      then show ?thesis by blast
    next
      case False
      have "\<forall>j<length (xs @ [x]). rank ((xs @ [x]) ! j) \<le> rank (xs ! i)"
        using some(5) False by (auto simp: nth_append less_Suc_eq)
      moreover have "\<forall>j<i. rank ((xs @ [x]) ! j) < rank (xs ! i)"
        using some(1,6) by (auto simp: nth_append)
      ultimately have "i < length (xs @ [x]) \<and>
          nl_topNode s = IssueID ((xs @ [x]) ! i) \<and>
          nl_topNodeRank s = rank ((xs @ [x]) ! i) \<and>
          0 < rank ((xs @ [x]) ! i) \<and>
          (\<forall>j<length (xs @ [x]). rank ((xs @ [x]) ! j) \<le> rank ((xs @ [x]) ! i)) \<and>
          (\<forall>j<i. rank ((xs @ [x]) ! j) < rank ((xs @ [x]) ! i))"
        using False some(1,2,3,4) rk nd by (simp add: nth_append)
      then show ?thesis by blast
    qed
  qed
qed

lemma maxPR_loop_Max: "maxPR_loop m xs = Max (insert m (snd ` set xs))"
proof (induction xs arbitrary: m)
  case Nil
  then show ?case by simp
next
  case (Cons a xs)
  obtain k pr where a: "a = (k, pr)" by (cases a)
  have "maxPR_loop m (a # xs) = Max (insert (max m pr) (snd ` set xs))"
    by (simp add: a Cons.IH max_def)
  also have "\<dots> = Max (insert m (insert pr (snd ` set xs)))"
    by (cases "snd ` set xs = {}") (simp_all add: max.assoc)
  finally show ?case by (simp add: a)
qed






subsection \<open>Node radius and top node\<close>





lemma TopNode_ComputeForceLayout:
  "TopNode (ComputeForceLayout rnd opts) =
     nl_topNode (foldl (node_step rnd (set_defaults opts) (PageRankMap (Stats opts))
        (BetweennessMap (Stats opts)) (find_maxPR (PageRankMap (Stats opts)))
        (canvasSize_of (length (Issues opts))))
      \<lparr>nl_nodes = [], nl_nodeMap = Map.empty, nl_topNode = [], nl_topNodeRank = 0, nl_rng = 0\<rparr>
      (Issues opts))"
  "TopNodeRank (ComputeForceLayout rnd opts) =
     nl_topNodeRank (foldl (node_step rnd (set_defaults opts) (PageRankMap (Stats opts))
        (BetweennessMap (Stats opts)) (find_maxPR (PageRankMap (Stats opts)))
        (canvasSize_of (length (Issues opts))))
      \<lparr>nl_nodes = [], nl_nodeMap = Map.empty, nl_topNode = [], nl_topNodeRank = 0, nl_rng = 0\<rparr>
      (Issues opts))"
  by (simp_all add: ComputeForceLayout_def finish_layout_def create_nodes_def Let_def)

lemma top_node_general:
  fixes opts :: ForceLayoutOptions and rnd :: "nat \<Rightarrow> real"
  defines "rank \<equiv> \<lambda>iss. lookup_pr (PageRankMap (Stats opts)) (IssueID iss)"
  defines "L \<equiv> ComputeForceLayout rnd opts"
  shows "(TopNodeRank L = 0 \<and> TopNode L = [] \<and>
           (\<forall>j<length (Issues opts). rank (Issues opts ! j) \<le> 0)) \<or>
     (\<exists>i<length (Issues opts). TopNode L = IssueID (Issues opts ! i) \<and>
        TopNodeRank L = rank (Issues opts ! i) \<and> 0 < rank (Issues opts ! i) \<and>
        (\<forall>j<length (Issues opts). rank (Issues opts ! j) \<le> rank (Issues opts ! i)) \<and>
        (\<forall>j<i. rank (Issues opts ! j) < rank (Issues opts ! i)))"
  unfolding rank_def L_def TopNode_ComputeForceLayout
  by (rule top_invariant) (rule refl)

text \<open>
  Claim C9. \<open>TopNode\<close> names the issue of maximal PageRank among the input issues, the
  first one in input order when several have that rank, and \<open>TopNodeRank\<close> is that rank;
  \<open>TopNode\<close> is the empty string (and the rank 0) when there is no issue or every
  issue has rank zero. Ranks are those of the data model, not negative.
\<close>

theorem top_node_first_maximal:
  fixes opts :: ForceLayoutOptions and rnd :: "nat \<Rightarrow> real"
  defines "rank \<equiv> \<lambda>iss. lookup_pr (PageRankMap (Stats opts)) (IssueID iss)"
  defines "L \<equiv> ComputeForceLayout rnd opts"
  assumes nonneg: "\<forall>iss \<in> set (Issues opts). 0 \<le> rank iss"
  shows "if \<forall>iss \<in> set (Issues opts). rank iss = 0
         then TopNode L = [] \<and> TopNodeRank L = 0
         else \<exists>i<length (Issues opts).
                TopNode L = IssueID (Issues opts ! i) \<and>
                TopNodeRank L = rank (Issues opts ! i) \<and>
                (\<forall>j<length (Issues opts). rank (Issues opts ! j) \<le> rank (Issues opts ! i)) \<and>
                (\<forall>j<i. rank (Issues opts ! j) < rank (Issues opts ! i))"
proof -
  from top_node_general [of rnd opts] consider
    (none) "TopNodeRank L = 0" "TopNode L = []"
      "\<forall>j<length (Issues opts). rank (Issues opts ! j) \<le> 0"
  | (some) i where "i < length (Issues opts)" "TopNode L = IssueID (Issues opts ! i)"
      "TopNodeRank L = rank (Issues opts ! i)" "0 < rank (Issues opts ! i)"
      "\<forall>j<length (Issues opts). rank (Issues opts ! j) \<le> rank (Issues opts ! i)"
      "\<forall>j<i. rank (Issues opts ! j) < rank (Issues opts ! i)"
    unfolding rank_def L_def by blast
  then show ?thesis
  proof cases
    case none
    have "\<forall>iss \<in> set (Issues opts). rank iss = 0"
    proof
      fix iss assume "iss \<in> set (Issues opts)"
      then obtain j where "j < length (Issues opts)" "Issues opts ! j = iss"
        by (auto simp: in_set_conv_nth)
      then have "rank iss \<le> 0" using none(3) by auto
      moreover have "0 \<le> rank iss" using nonneg \<open>iss \<in> set (Issues opts)\<close> by simp
      ultimately show "rank iss = 0" by simp
    qed
    then show ?thesis using none by simp
  next
    case some
    have "Issues opts ! i \<in> set (Issues opts)" using some(1) by simp
    then have "\<not> (\<forall>iss \<in> set (Issues opts). rank iss = 0)"
      using some(4) by force
    then show ?thesis using some by auto
  qed
qed

theorem top_node_first_maximal_witness:
  "TopNode (ComputeForceLayout (\<lambda>_. 1 / 2)
      (ex_opts [ex_issue ''a'' [], ex_issue ''b'' [], ex_issue ''c'' []]
         [(''a'', 1 / 5), (''b'', 2 / 5), (''c'', 2 / 5)] 1)) = ''b'' \<and>
   TopNodeRank (ComputeForceLayout (\<lambda>_. 1 / 2)
      (ex_opts [ex_issue ''a'' [], ex_issue ''b'' [], ex_issue ''c'' []]
         [(''a'', 1 / 5), (''b'', 2 / 5), (''c'', 2 / 5)] 1)) = 2 / 5"
proof -
  define opts where "opts = ex_opts [ex_issue ''a'' [], ex_issue ''b'' [], ex_issue ''c'' []]
         [(''a'', 1 / 5), (''b'', 2 / 5), (''c'', 2 / 5)] 1"
  define rank where "rank = (\<lambda>iss :: Issue. lookup_pr (PageRankMap (Stats opts)) (IssueID iss))"
  define L where "L = ComputeForceLayout (\<lambda>_. 1 / 2) opts"
  have len: "length (Issues opts) = 3"
    by (simp add: opts_def ex_opts_def)
  have r: "rank (Issues opts ! 0) = 1 / 5" "rank (Issues opts ! 1) = 2 / 5"
    "rank (Issues opts ! 2) = 2 / 5"
    "IssueID (Issues opts ! 1) = ''b''"
    by (simp_all add: rank_def opts_def ex_opts_def ex_issue_def lookup_pr_def)
  have nn: "\<forall>iss \<in> set (Issues opts). 0 \<le> lookup_pr (PageRankMap (Stats opts)) (IssueID iss)"
    by (simp add: opts_def ex_opts_def ex_issue_def lookup_pr_def)
  have nz: "\<not> (\<forall>iss \<in> set (Issues opts). lookup_pr (PageRankMap (Stats opts)) (IssueID iss) = 0)"
    by (simp add: opts_def ex_opts_def ex_issue_def lookup_pr_def)
  have "\<exists>i<length (Issues opts).
          TopNode L = IssueID (Issues opts ! i) \<and> TopNodeRank L = rank (Issues opts ! i) \<and>
          (\<forall>j<length (Issues opts). rank (Issues opts ! j) \<le> rank (Issues opts ! i)) \<and>
          (\<forall>j<i. rank (Issues opts ! j) < rank (Issues opts ! i))"
    using top_node_first_maximal [OF nn, of "\<lambda>_. 1 / 2"] nz unfolding L_def rank_def
    by (simp only: if_False)
  then obtain i where i: "i < 3" "TopNode L = IssueID (Issues opts ! i)"
      "TopNodeRank L = rank (Issues opts ! i)"
      "\<forall>j<3. rank (Issues opts ! j) \<le> rank (Issues opts ! i)"
      "\<forall>j<i. rank (Issues opts ! j) < rank (Issues opts ! i)"
    unfolding len by blast
  from i(1) consider "i = 0" | "i = 1" | "i = 2" by linarith
  then have "i = 1"
  proof cases
    case 1
    with i(4) have "rank (Issues opts ! 1) \<le> rank (Issues opts ! 0)" by simp
    then have "(2 / 5 :: real) \<le> 1 / 5" by (simp only: r)
    then show ?thesis by simp
  next
    case 2
    then show ?thesis .
  next
    case 3
    with i(5) have "rank (Issues opts ! 1) < rank (Issues opts ! 2)" by simp
    then have "(2 / 5 :: real) < 2 / 5" by (simp only: r)
    then show ?thesis by simp
  qed
  then have "TopNode L = ''b'' \<and> TopNodeRank L = 2 / 5"
    using i(2,3) by (simp only: r)
  then show ?thesis by (simp only: L_def opts_def)
qed

subsection \<open>Independence of the order of the PageRank map\<close>

lemma lookup_pr_cong: "map_of p1 = map_of p2 \<Longrightarrow> lookup_pr p1 = lookup_pr p2"
  by (simp add: lookup_pr_def fun_eq_iff)

lemma find_maxPR_set: "set p1 = set p2 \<Longrightarrow> find_maxPR p1 = find_maxPR p2"
  by (simp add: find_maxPR_def maxPR_loop_Max)

lemma node_step_cong:
  assumes "lookup_pr p1 = lookup_pr p2"
    and "MinNodeSize o1 = MinNodeSize o2" and "MaxNodeSize o1 = MaxNodeSize o2"
  shows "node_step rnd o1 p1 bt m c = node_step rnd o2 p2 bt m c"
  using assms by (simp add: node_step_def make_node_def fun_eq_iff)

lemma create_nodes_cong:
  assumes "lookup_pr p1 = lookup_pr p2"
    and "MinNodeSize o1 = MinNodeSize o2" and "MaxNodeSize o1 = MaxNodeSize o2"
    and "Issues o1 = Issues o2"
  shows "create_nodes rnd o1 p1 bt m c = create_nodes rnd o2 p2 bt m c"
  using assms by (simp add: create_nodes_def node_step_cong [OF assms(1-3)])

lemma sim_round_cong:
  assumes "RepelForce o1 = RepelForce o2" "AttractForce o1 = AttractForce o2"
    "Damping o1 = Damping o2"
  shows "sim_round o1 nm es t ns = sim_round o2 nm es t ns"
  using assms by (simp add: sim_round_def)

lemma sim_loop_cong:
  assumes "Iterations o1 = Iterations o2" "RepelForce o1 = RepelForce o2"
    "AttractForce o1 = AttractForce o2" "Damping o1 = Damping o2"
  shows "sim_loop o1 nm es it t ns = sim_loop o2 nm es it t ns"
  using assms
proof (induction o1 nm es it t ns rule: sim_loop.induct)
  case (1 o1 nm es it t ns)
  show ?case
  proof (cases "it < Iterations o1")
    case True
    then have "sim_loop o1 nm es it t ns =
        sim_loop o1 nm es (it + 1) (t * 0.97) (sim_round o1 nm es t ns)"
      by (simp add: sim_loop.simps [of o1 nm es it t ns])
    also have "\<dots> = sim_loop o2 nm es (it + 1) (t * 0.97) (sim_round o1 nm es t ns)"
      using "1.IH" [OF True] "1.prems" by simp
    also have "\<dots> = sim_loop o2 nm es (it + 1) (t * 0.97) (sim_round o2 nm es t ns)"
      using "1.prems" by (simp add: sim_round_cong [of o1 o2])
    also have "\<dots> = sim_loop o2 nm es it t ns"
      using True "1.prems"(1) by (simp add: sim_loop.simps [of o2 nm es it t ns])
    finally show ?thesis .
  next
    case False
    then show ?thesis
      using "1.prems"(1)
      by (simp add: sim_loop.simps [of o1 nm es it t ns] sim_loop.simps [of o2 nm es it t ns])
  qed
qed

lemma finish_layout_cong:
  "OptTitle o1 = OptTitle o2 \<Longrightarrow> OptDataHash o1 = OptDataHash o2 \<Longrightarrow>
   finish_layout o1 st es ns = finish_layout o2 st es ns"
  by (simp add: finish_layout_def)

lemma set_defaults_Stats:
  "set_defaults (opts\<lparr>Stats := s\<rparr>) = (set_defaults opts)\<lparr>Stats := s\<rparr>"
  by (simp add: set_defaults_def)

text \<open>
  Claim C1. Two calls with the same issues, statistics and options return the same
  layout: the same nodes in the same order with the same coordinates, the same edges and
  the same bounds. The function of the model is a function of \<open>rnd\<close> and the options,
  and \<open>rnd\<close> is the one sequence of the generator seeded with the constant 42. The only
  thing a second run of the Go code may do differently is to visit the entries of the
  PageRank map in another order; the layout does not depend on that order.
\<close>

theorem layout_independent_of_map_order:
  assumes d1: "distinct (map fst prA)" and d2: "distinct (map fst prB)"
    and same: "set prA = set prB"
  shows "ComputeForceLayout rnd (opts\<lparr>Stats := \<lparr>PageRankMap = prA, BetweennessMap = bt\<rparr>\<rparr>) =
         ComputeForceLayout rnd (opts\<lparr>Stats := \<lparr>PageRankMap = prB, BetweennessMap = bt\<rparr>\<rparr>)"
proof -
  let ?o1 = "set_defaults (opts\<lparr>Stats := \<lparr>PageRankMap = prA, BetweennessMap = bt\<rparr>\<rparr>)"
  let ?o2 = "set_defaults (opts\<lparr>Stats := \<lparr>PageRankMap = prB, BetweennessMap = bt\<rparr>\<rparr>)"
  have m: "map_of prA = map_of prB"
    using d1 d2 same by (simp add: map_of_inject_set)
  have l: "lookup_pr prA = lookup_pr prB" using m by (rule lookup_pr_cong)
  have f: "find_maxPR prA = find_maxPR prB" using same by (rule find_maxPR_set)
  have c: "create_nodes rnd ?o1 prA bt (find_maxPR prA) (canvasSize_of (length (Issues opts))) =
           create_nodes rnd ?o2 prB bt (find_maxPR prB) (canvasSize_of (length (Issues opts)))"
    unfolding f by (rule create_nodes_cong [OF l]) (simp_all add: set_defaults_Stats)
  have s: "sim_loop ?o1 nm es it t ns = sim_loop ?o2 nm es it t ns" for nm es it t ns
    by (rule sim_loop_cong) (simp_all add: set_defaults_Stats)
  have fl: "finish_layout ?o1 st es ns = finish_layout ?o2 st es ns" for st es ns
    by (rule finish_layout_cong) simp_all
  show ?thesis
    unfolding ComputeForceLayout_def Let_def
    by (simp add: c s fl)
qed

text \<open>A map with two entries, visited in the two possible orders.\<close>

theorem layout_independent_of_map_order_witness:
  "ComputeForceLayout (\<lambda>_. 1 / 2)
     (ex_opts [ex_issue ''a'' [ex_dep ''b''], ex_issue ''b'' []] [(''a'', 1 / 4), (''b'', 3 / 4)] 0) =
   ComputeForceLayout (\<lambda>_. 1 / 2)
     (ex_opts [ex_issue ''a'' [ex_dep ''b''], ex_issue ''b'' []] [(''b'', 3 / 4), (''a'', 1 / 4)] 0)"
  using layout_independent_of_map_order [where prA = "[(''a'', 1 / 4), (''b'', 3 / 4)]"
      and prB = "[(''b'', 3 / 4), (''a'', 1 / 4)]" and rnd = "\<lambda>_. 1 / 2" and bt = Map.empty
      and opts = "ex_opts [ex_issue ''a'' [ex_dep ''b''], ex_issue ''b'' []] [] 0"]
  by (simp add: ex_opts_def insert_commute)

subsection \<open>Edges of an issue to itself and edges out of the snapshot\<close>

lemma attract_edge_self: "From e = To e \<Longrightarrow> attract_edge af nm ns e = ns"
  by (simp add: attract_edge_def Let_def split: option.splits)

lemma attract_all_drop_self:
  "attract_all af nm (filter (\<lambda>e. From e \<noteq> To e) es) ns = attract_all af nm es ns"
  unfolding attract_all_def
  by (induction es arbitrary: ns) (simp_all add: attract_edge_self)

lemma sim_round_drop_self:
  "sim_round opts nm (filter (\<lambda>e. From e \<noteq> To e) es) t ns = sim_round opts nm es t ns"
  by (simp add: sim_round_def attract_all_drop_self)

lemma sim_loop_drop_self:
  "sim_loop opts nm (filter (\<lambda>e. From e \<noteq> To e) es) it t ns = sim_loop opts nm es it t ns"
proof (induction opts nm es it t ns rule: sim_loop.induct)
  case (1 opts nm es it t ns)
  let ?fs = "filter (\<lambda>e. From e \<noteq> To e) es"
  show ?case
  proof (cases "it < Iterations opts")
    case True
    then show ?thesis
      using "1.IH" [OF True]
      by (simp add: sim_loop.simps [of opts nm es it t ns]
          sim_loop.simps [of opts nm ?fs it t ns] sim_round_drop_self)
  next
    case False
    then show ?thesis
      by (simp add: sim_loop.simps [of opts nm es it t ns]
          sim_loop.simps [of opts nm ?fs it t ns])
  qed
qed

lemma dep_edges_target: "e \<in> set (dep_edges ids owner deps) \<Longrightarrow> From e = owner \<and> ids (To e)"
  by (induction ids owner deps rule: dep_edges.induct) (auto split: if_splits)

lemma edges_loop_target:
  "e \<in> set (edges_loop ids issues) \<Longrightarrow> From e \<in> IssueID ` set issues \<and> ids (To e)"
  by (induction issues) (auto dest: dep_edges_target)

lemma build_edges_target:
  "e \<in> set (build_edges issues) \<Longrightarrow>
     From e \<in> IssueID ` set issues \<and> To e \<in> IssueID ` set issues"
  by (auto simp: build_edges_def issueIDs_def dest: edges_loop_target)

lemma dep_edges_filter:
  "dep_edges ids owner (filter (keep_dep ids owner) deps) =
     filter (\<lambda>e. From e \<noteq> To e) (dep_edges ids owner deps)"
  by (induction ids owner deps rule: dep_edges.induct) (auto simp: keep_dep_def)

lemma edges_loop_prune:
  "edges_loop ids (map (\<lambda>iss. iss\<lparr>Dependencies :=
       filter (keep_dep ids (IssueID iss)) (Dependencies iss)\<rparr>) issues) =
   filter (\<lambda>e. From e \<noteq> To e) (edges_loop ids issues)"
  by (induction issues) (simp_all add: dep_edges_filter)

lemma issueIDs_prune: "issueIDs (prune_deps issues) = issueIDs issues"
  by (simp add: issueIDs_def prune_deps_def fun_eq_iff comp_def)

lemma build_edges_prune:
  "build_edges (prune_deps issues) = filter (\<lambda>e. From e \<noteq> To e) (build_edges issues)"
  unfolding build_edges_def issueIDs_prune
  by (simp add: prune_deps_def edges_loop_prune)

lemma node_step_Dependencies:
  "node_step rnd opts prs bt m c s (iss\<lparr>Dependencies := d\<rparr>) = node_step rnd opts prs bt m c s iss"
  by (simp add: node_step_def make_node_def Let_def)

lemma foldl_node_step_prune:
  "foldl (node_step rnd opts prs bt m c) s (map (\<lambda>iss. iss\<lparr>Dependencies := g iss\<rparr>) issues) =
   foldl (node_step rnd opts prs bt m c) s issues"
  by (induction issues arbitrary: s) (simp_all add: node_step_Dependencies)

lemma create_nodes_prune:
  assumes "MinNodeSize o1 = MinNodeSize o2" "MaxNodeSize o1 = MaxNodeSize o2"
    and "Issues o1 = prune_deps (Issues o2)"
  shows "create_nodes rnd o1 prs bt m c = create_nodes rnd o2 prs bt m c"
proof -
  have "node_step rnd o1 prs bt m c = node_step rnd o2 prs bt m c"
    by (rule node_step_cong) (simp_all add: assms)
  then show ?thesis
    by (simp add: create_nodes_def assms(3) prune_deps_def foldl_node_step_prune)
qed

lemma finish_layout_Edges:
  "(finish_layout opts st es ns)\<lparr>Edges := es'\<rparr> = finish_layout opts st es' ns"
  by (simp add: finish_layout_def Let_def)

lemma set_defaults_Issues:
  "set_defaults (opts\<lparr>Issues := i\<rparr>) = (set_defaults opts)\<lparr>Issues := i\<rparr>"
  by (simp add: set_defaults_def)

lemma length_prune_deps [simp]: "length (prune_deps issues) = length issues"
  by (simp add: prune_deps_def)

lemma Edges_ComputeForceLayout:
  "Edges (ComputeForceLayout rnd opts) = build_edges (Issues opts)"
  by (simp add: ComputeForceLayout_def finish_layout_def Let_def)

lemma ComputeForceLayout_prune:
  "ComputeForceLayout rnd opts =
     (ComputeForceLayout rnd (opts\<lparr>Issues := prune_deps (Issues opts)\<rparr>))
       \<lparr>Edges := build_edges (Issues opts)\<rparr>"
proof -
  let ?o = "set_defaults opts"
  let ?p = "set_defaults (opts\<lparr>Issues := prune_deps (Issues opts)\<rparr>)"
  let ?pr = "PageRankMap (Stats opts)"
  let ?bt = "BetweennessMap (Stats opts)"
  let ?c = "canvasSize_of (length (Issues opts))"
  have c: "create_nodes rnd ?p ?pr ?bt (find_maxPR ?pr) ?c =
           create_nodes rnd ?o ?pr ?bt (find_maxPR ?pr) ?c"
    by (rule create_nodes_prune) (simp_all add: set_defaults_Issues)
  have s: "sim_loop ?p nm (build_edges (prune_deps (Issues opts))) it t ns =
           sim_loop ?o nm (build_edges (Issues opts)) it t ns" for nm it t ns
  proof -
    have "sim_loop ?p nm (build_edges (prune_deps (Issues opts))) it t ns =
          sim_loop ?o nm (build_edges (prune_deps (Issues opts))) it t ns"
      by (rule sim_loop_cong) (simp_all add: set_defaults_Issues)
    then show ?thesis by (simp add: build_edges_prune sim_loop_drop_self)
  qed
  have fl: "finish_layout ?p st es ns = finish_layout ?o st es ns" for st es ns
    by (rule finish_layout_cong) simp_all
  show ?thesis
    unfolding ComputeForceLayout_def Let_def
    by (simp add: c s fl finish_layout_Edges)
qed

text \<open>
  Claim C7. A dependency of an issue on itself contributes no force, and a dependency on
  an identifier outside the snapshot takes no part in the simulation. The layout of a
  snapshot is the layout of the snapshot with these dependencies removed, up to the edge
  list, which still lists the edges of an issue to itself; every listed edge has its
  target in the snapshot; and the body of the edge loop leaves all nodes as they are for
  an edge of an issue to itself. The all-pairs loop takes no edges at all and skips
  \<open>i = j\<close>, so there is nothing repulsive either: that is part of the first equation.
\<close>

theorem self_and_dangling_edges_inert:
  "ComputeForceLayout rnd opts =
     (ComputeForceLayout rnd (opts\<lparr>Issues := prune_deps (Issues opts)\<rparr>))
       \<lparr>Edges := build_edges (Issues opts)\<rparr> \<and>
   (\<forall>e \<in> set (Edges (ComputeForceLayout rnd opts)). To e \<in> IssueID ` set (Issues opts)) \<and>
   (\<forall>e. From e = To e \<longrightarrow> attract_edge af nm ns e = ns)"
  using ComputeForceLayout_prune [of rnd opts]
  by (auto simp: Edges_ComputeForceLayout attract_edge_self dest: build_edges_target)

theorem self_and_dangling_edges_inert_witness:
  "ComputeForceLayout (\<lambda>_. 1 / 2)
     (ex_opts [ex_issue ''a'' [ex_dep ''a'', ex_dep ''z'', None, ex_dep ''b''], ex_issue ''b'' []] [] 2) =
   (ComputeForceLayout (\<lambda>_. 1 / 2)
     (ex_opts [ex_issue ''a'' [ex_dep ''b''], ex_issue ''b'' []] [] 2))
     \<lparr>Edges := [\<lparr>From = ''a'', To = ''a'', Type = ''blocks''\<rparr>,
                \<lparr>From = ''a'', To = ''b'', Type = ''blocks''\<rparr>]\<rparr> \<and>
   attract_edge 1 [''a'' \<mapsto> 0] [ex_node ''a'' 3 4] \<lparr>From = ''a'', To = ''a'', Type = ''blocks''\<rparr> =
     [ex_node ''a'' 3 4]"
  using self_and_dangling_edges_inert [of "\<lambda>_. 1 / 2"
     "ex_opts [ex_issue ''a'' [ex_dep ''a'', ex_dep ''z'', None, ex_dep ''b''], ex_issue ''b'' []] [] 2"
     1 "[''a'' \<mapsto> 0]" "[ex_node ''a'' 3 4]"]
  by (simp add: ex_opts_def ex_issue_def ex_dep_def prune_deps_def keep_dep_def issueIDs_def
      build_edges_def)

subsection \<open>Duplicate edges\<close>

lemma attract_edge_distinct:
  fixes af :: real
  assumes "nm (From e) = Some i1" "nm (To e) = Some i2" "i1 \<noteq> i2"
    "i1 < length ns" "i2 < length ns"
  defines "p \<equiv> edge_pull af (X (ns ! i1)) (Y (ns ! i1)) (X (ns ! i2)) (Y (ns ! i2))"
  shows "attract_edge af nm ns e =
      ns[i1 := (ns ! i1)\<lparr>Vx := Vx (ns ! i1) + fst p, Vy := Vy (ns ! i1) + snd p\<rparr>,
         i2 := (ns ! i2)\<lparr>Vx := Vx (ns ! i2) - fst p, Vy := Vy (ns ! i2) - snd p\<rparr>]"
  using assms(1-5) by (simp add: attract_edge_def p_def edge_pull_def Let_def)

lemma attract_edge_distinct_fields:
  fixes af :: real
  assumes "nm (From e) = Some i1" "nm (To e) = Some i2" "i1 \<noteq> i2"
    "i1 < length ns" "i2 < length ns"
  defines "p \<equiv> edge_pull af (X (ns ! i1)) (Y (ns ! i1)) (X (ns ! i2)) (Y (ns ! i2))"
  defines "r \<equiv> attract_edge af nm ns e"
  shows "length r = length ns"
    and "X (r ! i1) = X (ns ! i1)" and "Y (r ! i1) = Y (ns ! i1)"
    and "X (r ! i2) = X (ns ! i2)" and "Y (r ! i2) = Y (ns ! i2)"
    and "Vx (r ! i1) = Vx (ns ! i1) + fst p" and "Vy (r ! i1) = Vy (ns ! i1) + snd p"
    and "Vx (r ! i2) = Vx (ns ! i2) - fst p" and "Vy (r ! i2) = Vy (ns ! i2) - snd p"
  unfolding r_def p_def attract_edge_distinct [OF assms(1-5)]
  using assms(3-5) by simp_all

lemma attract_replicate:
  assumes "nm (From e) = Some i1" "nm (To e) = Some i2" "i1 \<noteq> i2"
  shows "i1 < length ns \<Longrightarrow> i2 < length ns \<Longrightarrow>
    length (attract_all af nm (replicate k e) ns) = length ns \<and>
    Vx (attract_all af nm (replicate k e) ns ! i1) =
      Vx (ns ! i1) + real k * fst (edge_pull af (X (ns ! i1)) (Y (ns ! i1)) (X (ns ! i2)) (Y (ns ! i2))) \<and>
    Vy (attract_all af nm (replicate k e) ns ! i1) =
      Vy (ns ! i1) + real k * snd (edge_pull af (X (ns ! i1)) (Y (ns ! i1)) (X (ns ! i2)) (Y (ns ! i2))) \<and>
    Vx (attract_all af nm (replicate k e) ns ! i2) =
      Vx (ns ! i2) - real k * fst (edge_pull af (X (ns ! i1)) (Y (ns ! i1)) (X (ns ! i2)) (Y (ns ! i2))) \<and>
    Vy (attract_all af nm (replicate k e) ns ! i2) =
      Vy (ns ! i2) - real k * snd (edge_pull af (X (ns ! i1)) (Y (ns ! i1)) (X (ns ! i2)) (Y (ns ! i2)))"
proof (induction k arbitrary: ns)
  case 0
  then show ?case by (simp add: attract_all_def)
next
  case (Suc k)
  let ?ns' = "attract_edge af nm ns e"
  note f = attract_edge_distinct_fields [OF assms Suc.prems, of af]
  have step: "attract_all af nm (replicate (Suc k) e) ns = attract_all af nm (replicate k e) ?ns'"
    by (simp add: attract_all_def)
  have len: "i1 < length ?ns'" "i2 < length ?ns'" using f(1) Suc.prems by simp_all
  show ?case
    unfolding step using Suc.IH [OF len] f
    by (simp add: algebra_simps)
qed

lemma map_filter_Some_deps:
  "dep_edges ids owner deps =
     map (\<lambda>dep. \<lparr>From = owner, To = DependsOnID dep, Type = DepType dep\<rparr>)
       (filter (\<lambda>dep. ids (DependsOnID dep)) (List.map_filter (\<lambda>d. d) deps))"
  by (induction ids owner deps rule: dep_edges.induct) simp_all

lemma edges_loop_concat:
  "edges_loop ids issues =
     concat (map (\<lambda>iss. map (\<lambda>dep. \<lparr>From = IssueID iss, To = DependsOnID dep, Type = DepType dep\<rparr>)
       (filter (\<lambda>dep. ids (DependsOnID dep)) (List.map_filter (\<lambda>d. d) (Dependencies iss)))) issues)"
  by (induction issues) (simp_all add: map_filter_Some_deps)

text \<open>
  Claim C4, as the code has it. Nothing removes duplicates: the edge list has one edge
  for every dependency that is not \<^verbatim>\<open>nil\<close> and whose target is in the snapshot, in the
  order of the input, so a triple of owner, target and kind that occurs \<open>k\<close> times among
  the dependencies occurs \<open>k\<close> times among the edges. Each occurrence is applied by the
  edge loop: \<open>k\<close> copies of an edge between two different nodes change the velocities
  of its endpoints by \<open>k\<close> times the pull of one copy.
\<close>

theorem duplicate_edges_all_applied:
  "Edges (ComputeForceLayout rnd opts) =
     concat (map (\<lambda>iss. map (\<lambda>dep. \<lparr>From = IssueID iss, To = DependsOnID dep, Type = DepType dep\<rparr>)
       (filter (\<lambda>dep. issueIDs (Issues opts) (DependsOnID dep))
          (List.map_filter (\<lambda>d. d) (Dependencies iss)))) (Issues opts)) \<and>
   (nm (From e) = Some i1 \<and> nm (To e) = Some i2 \<and> i1 \<noteq> i2 \<and> i1 < length ns \<and> i2 < length ns \<longrightarrow>
    Vx (attract_all af nm (replicate k e) ns ! i1) =
      Vx (ns ! i1) + real k * fst (edge_pull af (X (ns ! i1)) (Y (ns ! i1)) (X (ns ! i2)) (Y (ns ! i2))) \<and>
    Vy (attract_all af nm (replicate k e) ns ! i1) =
      Vy (ns ! i1) + real k * snd (edge_pull af (X (ns ! i1)) (Y (ns ! i1)) (X (ns ! i2)) (Y (ns ! i2))) \<and>
    Vx (attract_all af nm (replicate k e) ns ! i2) =
      Vx (ns ! i2) - real k * fst (edge_pull af (X (ns ! i1)) (Y (ns ! i1)) (X (ns ! i2)) (Y (ns ! i2))) \<and>
    Vy (attract_all af nm (replicate k e) ns ! i2) =
      Vy (ns ! i2) - real k * snd (edge_pull af (X (ns ! i1)) (Y (ns ! i1)) (X (ns ! i2)) (Y (ns ! i2))))"
proof -
  have "Edges (ComputeForceLayout rnd opts) =
     concat (map (\<lambda>iss. map (\<lambda>dep. \<lparr>From = IssueID iss, To = DependsOnID dep, Type = DepType dep\<rparr>)
       (filter (\<lambda>dep. issueIDs (Issues opts) (DependsOnID dep))
          (List.map_filter (\<lambda>d. d) (Dependencies iss)))) (Issues opts))"
    by (simp only: Edges_ComputeForceLayout build_edges_def edges_loop_concat)
  then show ?thesis using attract_replicate [of nm e i1 i2 ns af k] by blast
qed

theorem duplicate_edges_all_applied_witness:
  "Edges (ComputeForceLayout (\<lambda>_. 1 / 2)
      (ex_opts [ex_issue ''a'' [ex_dep ''b'', None, ex_dep ''z'', ex_dep ''b''], ex_issue ''b'' []] [] 1)) =
     [\<lparr>From = ''a'', To = ''b'', Type = ''blocks''\<rparr>, \<lparr>From = ''a'', To = ''b'', Type = ''blocks''\<rparr>] \<and>
   Vx (attract_all 1 [''a'' \<mapsto> 0, ''b'' \<mapsto> 1]
         (replicate 3 \<lparr>From = ''a'', To = ''b'', Type = ''blocks''\<rparr>)
         [ex_node ''a'' 0 0, ex_node ''b'' 2 0] ! 0) = 6 \<and>
   Vx (attract_all 1 [''a'' \<mapsto> 0, ''b'' \<mapsto> 1]
         (replicate 3 \<lparr>From = ''a'', To = ''b'', Type = ''blocks''\<rparr>)
         [ex_node ''a'' 0 0, ex_node ''b'' 2 0] ! 1) = - 6"
  using duplicate_edges_all_applied [of "\<lambda>_. 1 / 2"
      "ex_opts [ex_issue ''a'' [ex_dep ''b'', None, ex_dep ''z'', ex_dep ''b''], ex_issue ''b'' []] [] 1"
      "[''a'' \<mapsto> 0, ''b'' \<mapsto> 1]" "\<lparr>From = ''a'', To = ''b'', Type = ''blocks''\<rparr>" 0 1
      "[ex_node ''a'' 0 0, ex_node ''b'' 2 0]" 1 3]
  by (simp add: ex_opts_def ex_issue_def ex_dep_def ex_node_def issueIDs_def edge_pull_def)

text \<open>
  Claim C4 as stated (duplicates are removed before the simulation and do not multiply
  the attraction) fails: an issue with the same dependency twice has the edge twice in
  the list the simulation runs over, and the two copies pull twice as hard as one.
\<close>

theorem duplicate_edges_not_removed:
  "\<not> distinct (Edges (ComputeForceLayout (\<lambda>_. 1 / 2)
      (ex_opts [ex_issue ''a'' [ex_dep ''b'', ex_dep ''b''], ex_issue ''b'' []] [] 1))) \<and>
   Vx (attract_all 1 [''a'' \<mapsto> 0, ''b'' \<mapsto> 1]
         [\<lparr>From = ''a'', To = ''b'', Type = ''blocks''\<rparr>]
         [ex_node ''a'' 0 0, ex_node ''b'' 2 0] ! 0) = 2 \<and>
   Vx (attract_all 1 [''a'' \<mapsto> 0, ''b'' \<mapsto> 1]
         [\<lparr>From = ''a'', To = ''b'', Type = ''blocks''\<rparr>, \<lparr>From = ''a'', To = ''b'', Type = ''blocks''\<rparr>]
         [ex_node ''a'' 0 0, ex_node ''b'' 2 0] ! 0) = 4"
proof -
  have "Edges (ComputeForceLayout (\<lambda>_. 1 / 2)
      (ex_opts [ex_issue ''a'' [ex_dep ''b'', ex_dep ''b''], ex_issue ''b'' []] [] 1)) =
     [\<lparr>From = ''a'', To = ''b'', Type = ''blocks''\<rparr>, \<lparr>From = ''a'', To = ''b'', Type = ''blocks''\<rparr>]"
    by (simp add: Edges_ComputeForceLayout build_edges_def issueIDs_def ex_opts_def ex_issue_def
        ex_dep_def)
  then have 1: "\<not> distinct (Edges (ComputeForceLayout (\<lambda>_. 1 / 2)
      (ex_opts [ex_issue ''a'' [ex_dep ''b'', ex_dep ''b''], ex_issue ''b'' []] [] 1)))"
    by simp
  have 2: "Vx (attract_all 1 [''a'' \<mapsto> 0, ''b'' \<mapsto> 1]
         [\<lparr>From = ''a'', To = ''b'', Type = ''blocks''\<rparr>]
         [ex_node ''a'' 0 0, ex_node ''b'' 2 0] ! 0) = 2"
    by (simp add: attract_all_def attract_edge_def ex_node_def Let_def)
  have 3: "Vx (attract_all 1 [''a'' \<mapsto> 0, ''b'' \<mapsto> 1]
         [\<lparr>From = ''a'', To = ''b'', Type = ''blocks''\<rparr>, \<lparr>From = ''a'', To = ''b'', Type = ''blocks''\<rparr>]
         [ex_node ''a'' 0 0, ex_node ''b'' 2 0] ! 0) = 4"
    by (simp add: attract_all_def attract_edge_def ex_node_def Let_def)
  from 1 2 3 show ?thesis by blast
qed

subsection \<open>Negative iteration counts and the empty snapshot\<close>

lemma sim_loop_done: "Iterations opts \<le> it \<Longrightarrow> sim_loop opts nm es it t ns = ns"
  by (simp add: sim_loop.simps [of opts nm es it t ns])

text \<open>
  Claim C2, as the code has it. A negative \<open>Iterations\<close> is not replaced by the default
  (only zero is) and no error is raised, the function has no error result: the loop of
  the simulation runs no round, and the layout returned is the one of the nodes at their
  initial positions.
\<close>

theorem negative_iterations_skip_simulation:
  assumes "Iterations opts < 0"
  shows "Iterations (set_defaults opts) = Iterations opts \<and>
    ComputeForceLayout rnd opts =
     (let opts' = set_defaults opts;
          pageRank = PageRankMap (Stats opts');
          st = create_nodes rnd opts' pageRank (BetweennessMap (Stats opts'))
                 (find_maxPR pageRank) (canvasSize_of (length (Issues opts')))
      in finish_layout opts' st (build_edges (Issues opts')) (nl_nodes st))"
proof -
  have i: "Iterations (set_defaults opts) = Iterations opts"
    using assms by (simp add: set_defaults_fields)
  then have "Iterations (set_defaults opts) \<le> 0" using assms by simp
  then have "sim_loop (set_defaults opts) nm es 0 t ns = ns" for nm es t ns
    by (rule sim_loop_done)
  then show ?thesis using i by (simp add: ComputeForceLayout_def Let_def)
qed

theorem negative_iterations_skip_simulation_witness:
  "Iterations (set_defaults (ex_opts [ex_issue ''a'' []] [] (- 5))) = - 5 \<and>
   ComputeForceLayout (\<lambda>_. 1 / 2) (ex_opts [ex_issue ''a'' []] [] (- 5)) =
     (let opts' = set_defaults (ex_opts [ex_issue ''a'' []] [] (- 5));
          pageRank = PageRankMap (Stats opts');
          st = create_nodes (\<lambda>_. 1 / 2) opts' pageRank (BetweennessMap (Stats opts'))
                 (find_maxPR pageRank) (canvasSize_of (length (Issues opts')))
      in finish_layout opts' st (build_edges (Issues opts')) (nl_nodes st))"
proof -
  have "Iterations (ex_opts [ex_issue ''a'' []] [] (- 5)) < 0" by (simp add: ex_opts_def)
  from negative_iterations_skip_simulation [OF this, of "\<lambda>_. 1 / 2"] show ?thesis by (simp add: ex_opts_def)
qed

lemma MaxFloat64_large: "1000000 < MaxFloat64"
proof -
  have "(1::real) \<le> 2 ^ 971" by simp
  then have "(2 ^ 53 - 1) * (1::real) \<le> (2 ^ 53 - 1) * 2 ^ 971"
    by (intro mult_left_mono) simp_all
  then show ?thesis by (simp add: MaxFloat64_def)
qed

text \<open>
  Claim C2 as stated (a negative iteration count is surfaced as a configuration error)
  fails: with \<open>Iterations = -5\<close> and one issue the function returns this layout, the node
  at the centre of the 800 canvas, moved by the normalisation, its velocity never set.
\<close>

theorem negative_iterations_returns_layout:
  "ComputeForceLayout (\<lambda>_. 1 / 2) (ex_opts [ex_issue ''a'' []] [] (- 5)) =
     \<lparr>Nodes = [\<lparr>ID = ''a'', Title = ''a'', Status = ''open'', Priority = 1, PageRank = 0,
                X = 124, Y = 224, Vx = 0, Vy = 0, Radius = 24\<rparr>],
      Edges = [], Width = 248, Height = 348, CenterX = 124, CenterY = 174,
      MinX = 0, MaxX = 248, MinY = 0, MaxY = 348,
      LayoutTitle = ''t'', LayoutDataHash = ''h'', TopNode = [], TopNodeRank = 0\<rparr>"
proof -
  let ?o = "set_defaults (ex_opts [ex_issue ''a'' []] [] (- 5))"
  have it: "Iterations ?o \<le> 0" by (simp add: set_defaults_def ex_opts_def)
  have sim: "sim_loop ?o nm es 0 t ns = ns" for nm es t ns
    using it by (rule sim_loop_done)
  have st: "create_nodes (\<lambda>_. 1 / 2) ?o [] Map.empty 1 800 =
      \<lparr>nl_nodes = [\<lparr>ID = ''a'', Title = ''a'', Status = ''open'', Priority = 1, PageRank = 0,
                X = 400, Y = 400, Vx = 0, Vy = 0, Radius = 24\<rparr>],
       nl_nodeMap = [''a'' \<mapsto> 0], nl_topNode = [], nl_topNodeRank = 0, nl_rng = 2\<rparr>"
    by (simp add: create_nodes_def node_step_def make_node_def set_defaults_def ex_opts_def
        ex_issue_def lookup_pr_def lookup_bt_def Let_def)
  have b: "calc_bounds [\<lparr>ID = ''a'', Title = ''a'', Status = ''open'', Priority = 1, PageRank = 0,
                X = 400, Y = 400, Vx = 0, Vy = 0, Radius = 24\<rparr>] = (376, 424, 376, 424)"
    using MaxFloat64_large by (simp add: calc_bounds_def bounds_step_def)
  have e: "build_edges [ex_issue ''a'' []] = []"
    by (simp add: build_edges_def ex_issue_def)
  have c: "canvasSize_of (Suc 0) = 800" by (simp add: canvasSize_of_def)
  have m: "find_maxPR [] = 1" by (simp add: find_maxPR_def)
  let ?e = "ex_opts [ex_issue ''a'' []] [] (- 5)"
  have i: "Issues ?e = [ex_issue ''a'' []]" "PageRankMap (Stats ?e) = []"
    "BetweennessMap (Stats ?e) = Map.empty" "OptTitle ?e = ''t''" "OptDataHash ?e = ''h''"
    by (simp_all add: ex_opts_def)
  show ?thesis
    by (simp add: ComputeForceLayout_def Let_def sim i c m st e finish_layout_def b sort_Slice_def)
qed

lemma sim_loop_Nil: "sim_loop opts nm es it t [] = []"
  using static_sim_loop [of opts nm es it t "[]"] by simp

lemma ComputeForceLayout_empty:
  assumes "Issues opts = []"
  shows "ComputeForceLayout rnd opts =
     \<lparr>Nodes = [], Edges = [], Width = 200 - 2 * MaxFloat64, Height = 300 - 2 * MaxFloat64,
      CenterX = (200 - 2 * MaxFloat64) / 2, CenterY = (300 - 2 * MaxFloat64) / 2,
      MinX = 0, MaxX = 200 - 2 * MaxFloat64, MinY = 0, MaxY = 300 - 2 * MaxFloat64,
      LayoutTitle = OptTitle opts, LayoutDataHash = OptDataHash opts,
      TopNode = [], TopNodeRank = 0\<rparr>"
  using assms
  by (simp add: ComputeForceLayout_def Let_def create_nodes_def build_edges_def sim_loop_Nil
      finish_layout_def calc_bounds_def sort_Slice_def)

text \<open>
  Claim C3, as the code has it. For a snapshot without issues the layout has no nodes
  and no edges (and no top node); the minimum 800 is the side of the canvas the initial
  positions are drawn in, not a dimension of the returned layout.
\<close>

theorem empty_snapshot_no_nodes_no_edges:
  assumes "Issues opts = []"
  shows "Nodes (ComputeForceLayout rnd opts) = [] \<and> Edges (ComputeForceLayout rnd opts) = [] \<and>
         TopNode (ComputeForceLayout rnd opts) = [] \<and> TopNodeRank (ComputeForceLayout rnd opts) = 0 \<and>
         canvasSize_of (length (Issues opts)) = 800"
  using assms by (simp add: ComputeForceLayout_empty canvasSize_of_def)

theorem empty_snapshot_no_nodes_no_edges_witness:
  "Nodes (ComputeForceLayout (\<lambda>_. 1 / 2) (ex_opts [] [] 0)) = [] \<and>
   Edges (ComputeForceLayout (\<lambda>_. 1 / 2) (ex_opts [] [] 0)) = [] \<and>
   TopNode (ComputeForceLayout (\<lambda>_. 1 / 2) (ex_opts [] [] 0)) = [] \<and>
   TopNodeRank (ComputeForceLayout (\<lambda>_. 1 / 2) (ex_opts [] [] 0)) = 0 \<and>
   canvasSize_of (length (Issues (ex_opts [] [] 0))) = 800"
proof -
  have "Issues (ex_opts [] [] 0) = []" by (simp add: ex_opts_def)
  from empty_snapshot_no_nodes_no_edges [OF this, of "\<lambda>_. 1 / 2"] show ?thesis .
qed

text \<open>
  Claim C3 as stated (the empty layout has the dimensions of the minimum canvas) fails:
  the returned width and height come from the bounding box, which for no nodes is still
  the pair of sentinels \<open>MaxFloat64\<close> and \<open>- MaxFloat64\<close>; they are negative, not 800.
  (With exact reals the width is \<open>200 - 2 * MaxFloat64\<close>; in \<^verbatim>\<open>float64\<close> the subtraction
  overflows to minus infinity.)
\<close>

theorem empty_snapshot_size_not_minimum:
  "Width (ComputeForceLayout (\<lambda>_. 1 / 2) (ex_opts [] [] 0)) \<noteq> 800 \<and>
   Height (ComputeForceLayout (\<lambda>_. 1 / 2) (ex_opts [] [] 0)) \<noteq> 800 \<and>
   Width (ComputeForceLayout (\<lambda>_. 1 / 2) (ex_opts [] [] 0)) < 0 \<and>
   Height (ComputeForceLayout (\<lambda>_. 1 / 2) (ex_opts [] [] 0)) < 0"
proof -
  have "Issues (ex_opts [] [] 0) = []" by (simp add: ex_opts_def)
  then show ?thesis
    using MaxFloat64_large by (simp add: ComputeForceLayout_empty)
qed

end
